theory Spec2Isabelle
  imports Main
begin

section \<open>Quick Environment Switcher: the store and the switch commands of envswitch.py\<close>

text \<open>
  The module keeps two JSON documents under a per-user directory: the list of
  environments and the list of switches. Every function reads a whole document, changes
  it in memory and writes it back. The model passes the content of the two files
  explicitly (\<open>files\<close>) and returns them with every result, also with a raised error,
  since what was written before the error stays written. It takes the readings of
  \<open>datetime.now()\<close> as arguments (one argument per call site) and takes the calls into
  the platform and the Python library (\<open>sys.platform\<close>, \<open>str.lower\<close>, \<open>Path.exists\<close>,
  \<open>Path.resolve\<close>, the joining of paths) from a record \<open>host\<close>. Messages printed on the
  console are not part of the model.
\<close>

subsection \<open>Strings and slices\<close>

text \<open>The string that \<open>datetime.now().isoformat()\<close> returns.\<close>

type_synonym timestamp = string

text \<open>
  Python's \<open>xs[i:]\<close> for any integer \<open>i\<close>: a negative start counts from the end and is
  clipped at the beginning of the list, a start beyond the end gives the empty list.
\<close>

definition slice_from :: "int \<Rightarrow> 'a list \<Rightarrow> 'a list" where
  "slice_from i xs =
     (if i < 0 then drop (nat (int (length xs) + i)) xs else drop (nat i) xs)"

subsection \<open>Data\<close>

text \<open>One entry of \<open>data["environments"]\<close>; \<open>env_vars\<close> is a dict in insertion order.\<close>

record env_dict =
  name :: string
  project_path :: string
  python_env :: "string option"
  node_version :: "string option"
  env_vars :: "(string \<times> string) list"
  shell_commands :: "string list"
  description :: string
  created :: timestamp
  last_used :: "timestamp option"
  use_count :: int

text \<open>One entry of \<open>history["switches"]\<close>.\<close>

record switch_dict =
  environment :: string
  timestamp :: timestamp

text \<open>
  The configuration directory and the two files in it; \<open>None\<close> is a file that does not
  exist, \<open>Some xs\<close> a file holding the document with the list \<open>xs\<close>.
\<close>

record files =
  config_dir :: bool
  envs_file :: "env_dict list option"
  history_file :: "switch_dict list option"

text \<open>
  The exceptions: reading a file that does not exist, and the \<open>OSError\<close> that
  \<open>Path.exists()\<close> lets through.
\<close>

datatype error = FileNotFoundError | OSError

text \<open>
  The calls into the platform and the library, as functions of their arguments:
  \<^item> \<open>win32\<close> is \<open>sys.platform == 'win32'\<close>;
  \<^item> \<open>str_lower s\<close> is \<open>s.lower()\<close>, with all the letters that Python folds;
  \<^item> \<open>path_exists p\<close> is \<open>Path(p).exists()\<close>: \<open>Inr True\<close> for a path that is there, \<open>Inr False\<close>
    when the system reports that it is not (no such file, not a directory, a loop of
    links), and \<open>Inl OSError\<close> for every other failure of \<open>stat\<close>, which the call
    raises (a name longer than the file system allows, a directory that may not be
    searched);
  \<^item> \<open>path_join p q\<close> is \<open>str(Path(p) / q)\<close>;
  \<^item> \<open>path_resolve p\<close> is \<open>str(Path(p).resolve())\<close>.
  Nothing is assumed of these functions: every theorem holds for each of them.
\<close>

record host =
  win32 :: bool
  str_lower :: "string \<Rightarrow> string"
  path_exists :: "string \<Rightarrow> error + bool"
  path_join :: "string \<Rightarrow> string \<Rightarrow> string"
  path_resolve :: "string \<Rightarrow> string"

subsection \<open>Core functions\<close>

definition init_config :: "files \<Rightarrow> bool \<times> files" where
  "init_config w =
     (let w1 = w\<lparr>config_dir := True\<rparr>;
          w2 = (if envs_file w1 = None then w1\<lparr>envs_file := Some []\<rparr> else w1);
          w3 = (if history_file w2 = None then w2\<lparr>history_file := Some []\<rparr> else w2)
      in (True, w3))"

definition load_environments :: "files \<Rightarrow> (error + env_dict list) \<times> files" where
  "load_environments w =
     (let w1 = (if envs_file w = None then snd (init_config w) else w)
      in case envs_file w1 of
           None \<Rightarrow> (Inl FileNotFoundError, w1)
         | Some data \<Rightarrow> (Inr data, w1))"

definition save_environments :: "env_dict list \<Rightarrow> files \<Rightarrow> files" where
  "save_environments data w = w\<lparr>envs_file := Some data\<rparr>"

text \<open>
  The test of every loop over the environments:
  \<open>env["name"].lower() == name.lower()\<close>.
\<close>

definition same_name :: "host \<Rightarrow> string \<Rightarrow> env_dict \<Rightarrow> bool" where
  "same_name h nm env = (str_lower h (name env) = str_lower h nm)"

text \<open>
  \<open>add_environment\<close>; \<open>env_vars or {}\<close> and \<open>shell_commands or []\<close> turn \<open>None\<close> (and the
  empty value) into the empty value. \<open>now\<close> is the reading of the clock for \<open>created\<close>.
\<close>

definition add_environment ::
  "host \<Rightarrow> string \<Rightarrow> string \<Rightarrow> string option \<Rightarrow> string option \<Rightarrow>
   (string \<times> string) list option \<Rightarrow> string list option \<Rightarrow> string \<Rightarrow> timestamp \<Rightarrow>
   files \<Rightarrow> (error + bool) \<times> files" where
  "add_environment h nm path pe nv ev sc desc now w =
     (case load_environments w of
        (Inl e, w1) \<Rightarrow> (Inl e, w1)
      | (Inr data, w1) \<Rightarrow>
          if list_ex (same_name h nm) data then (Inr False, w1)
          else
            let env = \<lparr>name = nm,
                       project_path = path_resolve h path,
                       python_env = pe,
                       node_version = nv,
                       env_vars = (case ev of None \<Rightarrow> [] | Some d \<Rightarrow> d),
                       shell_commands = (case sc of None \<Rightarrow> [] | Some c \<Rightarrow> c),
                       description = desc,
                       created = now,
                       last_used = None,
                       use_count = 0\<rparr>
            in (Inr True, save_environments (data @ [env]) w1))"

definition get_environment ::
  "host \<Rightarrow> string \<Rightarrow> files \<Rightarrow> (error + env_dict option) \<times> files" where
  "get_environment h nm w =
     (case load_environments w of
        (Inl e, w1) \<Rightarrow> (Inl e, w1)
      | (Inr data, w1) \<Rightarrow> (Inr (find (same_name h nm) data), w1))"

text \<open>The index at which the loop of \<open>delete_environment\<close> stops, and \<open>del xs[i]\<close>.\<close>

fun first_index :: "host \<Rightarrow> string \<Rightarrow> env_dict list \<Rightarrow> nat option" where
  "first_index h nm [] = None"
| "first_index h nm (env # envs) =
     (if same_name h nm env then Some 0 else map_option Suc (first_index h nm envs))"

definition del_at :: "nat \<Rightarrow> 'a list \<Rightarrow> 'a list" where
  "del_at i xs = take i xs @ drop (Suc i) xs"

definition delete_environment :: "host \<Rightarrow> string \<Rightarrow> files \<Rightarrow> (error + bool) \<times> files" where
  "delete_environment h nm w =
     (case load_environments w of
        (Inl e, w1) \<Rightarrow> (Inl e, w1)
      | (Inr data, w1) \<Rightarrow>
          (case first_index h nm data of
             Some i \<Rightarrow> (Inr True, save_environments (del_at i data) w1)
           | None \<Rightarrow> (Inr False, w1)))"

text \<open>
  \<open>log_switch\<close>; \<open>now\<close> is the reading of the clock taken here, for the entry's
  \<open>timestamp\<close>.
\<close>

definition log_switch :: "string \<Rightarrow> timestamp \<Rightarrow> files \<Rightarrow> (error + unit) \<times> files" where
  "log_switch env_name now w =
     (let w1 = (if history_file w = None then snd (init_config w) else w)
      in case history_file w1 of
           None \<Rightarrow> (Inl FileNotFoundError, w1)
         | Some history \<Rightarrow>
             (Inr (),
              w1\<lparr>history_file :=
                    Some (slice_from (- 100)
                           (history @ [\<lparr>environment = env_name, timestamp = now\<rparr>]))\<rparr>))"

definition get_history :: "int \<Rightarrow> files \<Rightarrow> switch_dict list" where
  "get_history limit w =
     (case history_file w of
        None \<Rightarrow> []
      | Some history \<Rightarrow> slice_from (- limit) history)"

subsection \<open>The switch\<close>

text \<open>
  The loop "Update usage stats" of \<open>switch_environment\<close>: the first environment with the
  name gets the reading of the clock and one more use, then the loop breaks.
\<close>

fun update_usage :: "host \<Rightarrow> string \<Rightarrow> timestamp \<Rightarrow> env_dict list \<Rightarrow> env_dict list" where
  "update_usage h nm now [] = []"
| "update_usage h nm now (e # es) =
     (if same_name h nm e
      then e\<lparr>last_used := Some now, use_count := use_count e + 1\<rparr> # es
      else e # update_usage h nm now es)"

text \<open>
  The section "Activate Python environment": first the path \<open>activate_script\<close> that it
  settles on once the directory exists (on Windows after asking whether \<open>activate.bat\<close>
  exists), then the lines it adds. Each call of \<open>exists\<close> may raise, and the section
  raises with it. An empty string is false in Python.
\<close>

definition activate_script :: "host \<Rightarrow> string \<Rightarrow> error + string" where
  "activate_script h pe =
     (if win32 h then
        (let bat = path_join h (path_join h pe ''Scripts'') ''activate.bat''
         in case path_exists h bat of
              Inl e \<Rightarrow> Inl e
            | Inr False \<Rightarrow> Inr (path_join h (path_join h pe ''Scripts'') ''Activate.ps1'')
            | Inr True \<Rightarrow> Inr bat)
      else Inr (path_join h (path_join h pe ''bin'') ''activate''))"

definition activate_commands :: "host \<Rightarrow> env_dict \<Rightarrow> error + string list" where
  "activate_commands h env =
     (case python_env env of
        None \<Rightarrow> Inr []
      | Some pe \<Rightarrow>
          if pe = [] then Inr []
          else
            (case path_exists h pe of
               Inl e \<Rightarrow> Inl e
             | Inr False \<Rightarrow> Inr []
             | Inr True \<Rightarrow>
                 (case activate_script h pe of
                    Inl e \<Rightarrow> Inl e
                  | Inr script \<Rightarrow>
                      (case path_exists h script of
                         Inl e \<Rightarrow> Inl e
                       | Inr False \<Rightarrow> Inr []
                       | Inr True \<Rightarrow>
                           Inr [''# Activate Python environment'',
                                if win32 h then script else ''source '' @ script]))))"

text \<open>The section "Set environment variables".\<close>

definition env_var_commands :: "host \<Rightarrow> env_dict \<Rightarrow> string list" where
  "env_var_commands h env =
     (if env_vars env = [] then []
      else ''# Set environment variables'' #
           map (\<lambda>(key, v).
                  if win32 h then ''set '' @ key @ ''='' @ v
                  else ''export '' @ key @ [CHR ''='', CHR 0x22] @ v @ [CHR 0x22])
               (env_vars env))"

text \<open>The section "Run custom shell commands".\<close>

definition custom_commands :: "env_dict \<Rightarrow> string list" where
  "custom_commands env =
     (if shell_commands env = [] then []
      else ''# Custom commands'' # shell_commands env)"

text \<open>
  The list \<open>commands\<close> that \<open>switch_environment\<close> builds from the environment, or the
  error raised on the way.
\<close>

definition commands :: "host \<Rightarrow> env_dict \<Rightarrow> error + string list" where
  "commands h env =
     (case activate_commands h env of
        Inl e \<Rightarrow> Inl e
      | Inr activation \<Rightarrow>
          Inr ([''cd '' @ project_path env] @ activation @ env_var_commands h env
                 @ custom_commands env))"

text \<open>
  \<open>switch_environment\<close>; \<open>now_used\<close> is the reading of the clock stored in \<open>last_used\<close>,
  \<open>now_logged\<close> the later reading that \<open>log_switch\<close> takes. The result \<open>Inr None\<close> is the
  environment that was not found. The statistics and the history are written before
  the commands are built, so an error raised while building them leaves both written.
\<close>

definition switch_environment ::
  "host \<Rightarrow> string \<Rightarrow> timestamp \<Rightarrow> timestamp \<Rightarrow> files \<Rightarrow>
   (error + string list option) \<times> files" where
  "switch_environment h nm now_used now_logged w =
     (case get_environment h nm w of
        (Inl e, w1) \<Rightarrow> (Inl e, w1)
      | (Inr None, w1) \<Rightarrow> (Inr None, w1)
      | (Inr (Some env), w1) \<Rightarrow>
          (case load_environments w1 of
             (Inl e, w2) \<Rightarrow> (Inl e, w2)
           | (Inr data, w2) \<Rightarrow>
               (case log_switch nm now_logged
                       (save_environments (update_usage h nm now_used data) w2) of
                  (Inl e, w3) \<Rightarrow> (Inl e, w3)
                | (Inr u, w3) \<Rightarrow>
                    (case commands h env of
                       Inl e \<Rightarrow> (Inl e, w3)
                     | Inr cs \<Rightarrow> (Inr (Some cs), w3)))))"

subsection \<open>Several switches\<close>

text \<open>
  One call of \<open>switch_environment\<close> after the other, each with its name and its two
  readings of the clock, as one run of \<open>envswitch switch NAME\<close> follows another: a call
  that raises does not keep the next one from running. The results are collected in
  order.
\<close>

fun switch_all ::
  "host \<Rightarrow> (string \<times> timestamp \<times> timestamp) list \<Rightarrow> files \<Rightarrow>
   (error + string list option) list \<times> files" where
  "switch_all h [] w = ([], w)"
| "switch_all h ((nm, now_used, now_logged) # calls) w =
     (case switch_environment h nm now_used now_logged w of
        (r, w1) \<Rightarrow> (case switch_all h calls w1 of (rs, w2) \<Rightarrow> (r # rs, w2)))"

text \<open>The entry that a call writes to the history.\<close>

definition logged :: "string \<times> timestamp \<times> timestamp \<Rightarrow> switch_dict" where
  "logged call = \<lparr>environment = fst call, timestamp = snd (snd call)\<rparr>"

subsection \<open>What the files hold\<close>

text \<open>
  The environments and the switches on disk, as \<open>load_environments\<close> and \<open>get_history\<close>
  read them: a missing file counts as the empty list.
\<close>

definition environments :: "files \<Rightarrow> env_dict list" where
  "environments w = (case envs_file w of None \<Rightarrow> [] | Some data \<Rightarrow> data)"

definition switches :: "files \<Rightarrow> switch_dict list" where
  "switches w = (case history_file w of None \<Rightarrow> [] | Some hs \<Rightarrow> hs)"

text \<open>The files as \<open>load_environments\<close> leaves them.\<close>

definition loaded :: "files \<Rightarrow> files" where
  "loaded w = (if envs_file w = None then snd (init_config w) else w)"

text \<open>\<open>xs[-100:]\<close>, written with the list functions of HOL.\<close>

definition last100 :: "'a list \<Rightarrow> 'a list" where
  "last100 xs = drop (length xs - 100) xs"

text \<open>No two stored environments have the same name in lower case.\<close>

definition unique_names :: "host \<Rightarrow> files \<Rightarrow> bool" where
  "unique_names h w = distinct (map (\<lambda>env. str_lower h (name env)) (environments w))"

subsection \<open>Example states\<close>

text \<open>
  A lowering for the examples, on strings in UTF-8: the letters \<open>A\<close> to \<open>Z\<close> and the
  capital letters of Latin-1 (the byte \<open>C3\<close> followed by \<open>80\<close> to \<open>9E\<close> without \<open>97\<close>) go
  to their small letters, as \<open>str.lower\<close> sends them; the examples use no other capital
  letter.
\<close>

definition ascii_lower :: "char \<Rightarrow> char" where
  "ascii_lower c =
     (case map_of (zip ''ABCDEFGHIJKLMNOPQRSTUVWXYZ'' ''abcdefghijklmnopqrstuvwxyz'') c of
        Some l \<Rightarrow> l
      | None \<Rightarrow> c)"

definition latin1_lower :: "char \<Rightarrow> char" where
  "latin1_lower c =
     (case map_of
        (zip [CHR 0x80, CHR 0x81, CHR 0x82, CHR 0x83, CHR 0x84, CHR 0x85, CHR 0x86,
              CHR 0x87, CHR 0x88, CHR 0x89, CHR 0x8A, CHR 0x8B, CHR 0x8C, CHR 0x8D,
              CHR 0x8E, CHR 0x8F, CHR 0x90, CHR 0x91, CHR 0x92, CHR 0x93, CHR 0x94,
              CHR 0x95, CHR 0x96, CHR 0x98, CHR 0x99, CHR 0x9A, CHR 0x9B, CHR 0x9C,
              CHR 0x9D, CHR 0x9E]
             [CHR 0xA0, CHR 0xA1, CHR 0xA2, CHR 0xA3, CHR 0xA4, CHR 0xA5, CHR 0xA6,
              CHR 0xA7, CHR 0xA8, CHR 0xA9, CHR 0xAA, CHR 0xAB, CHR 0xAC, CHR 0xAD,
              CHR 0xAE, CHR 0xAF, CHR 0xB0, CHR 0xB1, CHR 0xB2, CHR 0xB3, CHR 0xB4,
              CHR 0xB5, CHR 0xB6, CHR 0xB8, CHR 0xB9, CHR 0xBA, CHR 0xBB, CHR 0xBC,
              CHR 0xBD, CHR 0xBE]) c of
        Some l \<Rightarrow> l
      | None \<Rightarrow> c)"

fun example_lower :: "string \<Rightarrow> string" where
  "example_lower [] = []"
| "example_lower [c] = [ascii_lower c]"
| "example_lower (c # d # cs) =
     (if c = CHR 0xC3 then c # latin1_lower d # example_lower cs
      else ascii_lower c # example_lower (d # cs))"

text \<open>
  A host that is not Windows, on which the interpreter directory of \<open>web_env\<close> exists and
  holds no activation script, and on which \<open>exists\<close> raises for a path of more than 255
  characters. The environment of the example scenario; an environment whose name ends
  in a capital E with an acute accent, with variables, commands and an interpreter
  directory; one whose interpreter path is 300 letters long. Files holding the first
  two, the same files after one switch to \<open>DEMO\<close>, files holding all three, and a
  history of three switches.
\<close>

definition posix_host :: host where
  "posix_host =
     \<lparr>win32 = False,
      str_lower = example_lower,
      path_exists = (\<lambda>p. if 255 < length p then Inl OSError
                           else Inr (p = ''/srv/web/.venv'')),
      path_join = (\<lambda>p q. p @ ''/'' @ q),
      path_resolve = (\<lambda>p. p)\<rparr>"

definition demo_env :: env_dict where
  "demo_env =
     \<lparr>name = ''demo'',
      project_path = ''/tmp/demo'',
      python_env = None,
      node_version = None,
      env_vars = [(''DEBUG'', ''true'')],
      shell_commands = [''echo hi''],
      description = '''',
      created = ''2026-01-05T09:00:00.000000'',
      last_used = None,
      use_count = 0\<rparr>"

definition web_env :: env_dict where
  "web_env =
     \<lparr>name = ''Caf'' @ [CHR 0xC3, CHR 0x89],
      project_path = ''/srv/web'',
      python_env = Some ''/srv/web/.venv'',
      node_version = Some ''18'',
      env_vars = [(''PORT'', ''8080'')],
      shell_commands = [''npm start''],
      description = ''the web front end'',
      created = ''2026-01-04T08:30:00.000000'',
      last_used = Some ''2026-01-04T08:45:10.120000'',
      use_count = 3\<rparr>"

definition deep_env :: env_dict where
  "deep_env =
     \<lparr>name = ''deep'',
      project_path = ''/srv/deep'',
      python_env = Some (replicate 300 (CHR ''a'')),
      node_version = None,
      env_vars = [],
      shell_commands = [],
      description = '''',
      created = ''2026-01-06T11:00:00.000000'',
      last_used = None,
      use_count = 0\<rparr>"

definition demo_files :: files where
  "demo_files =
     \<lparr>config_dir = True, envs_file = Some [web_env, demo_env], history_file = Some []\<rparr>"

definition demo_switched :: files where
  "demo_switched =
     \<lparr>config_dir = True,
      envs_file =
        Some [web_env,
              demo_env\<lparr>last_used := Some ''2026-01-06T12:00:00.000104'', use_count := 1\<rparr>],
      history_file =
        Some [\<lparr>environment = ''DEMO'', timestamp = ''2026-01-06T12:00:00.000871''\<rparr>]\<rparr>"

definition deep_files :: files where
  "deep_files =
     \<lparr>config_dir = True,
      envs_file = Some [web_env, demo_env, deep_env],
      history_file = Some []\<rparr>"

definition three_switches :: files where
  "three_switches =
     \<lparr>config_dir = True,
      envs_file = Some [web_env, demo_env],
      history_file =
        Some [\<lparr>environment = ''demo'', timestamp = ''2026-01-06T12:00:00.000871''\<rparr>,
              \<lparr>environment = ''web-app'', timestamp = ''2026-01-06T12:05:00.000313''\<rparr>,
              \<lparr>environment = ''Demo'', timestamp = ''2026-01-06T12:09:30.000507''\<rparr>]\<rparr>"

section \<open>Properties\<close>

lemmas example_defs =
  posix_host_def demo_env_def web_env_def deep_env_def demo_files_def demo_switched_def
  deep_files_def three_switches_def

lemmas lower_defs = ascii_lower_def latin1_lower_def same_name_def

subsection \<open>Reading and writing the files\<close>

lemma loaded_envs_file: "envs_file (loaded w) = Some (environments w)"
  by (cases "envs_file w") (simp_all add: loaded_def init_config_def environments_def Let_def)

lemma load_environments_eq: "load_environments w = (Inr (environments w), loaded w)"
  using loaded_envs_file [of w]
  by (simp add: load_environments_def loaded_def [symmetric])

lemma loaded_id: "envs_file w = Some data \<Longrightarrow> loaded w = w"
  by (simp add: loaded_def)

lemma loaded_loaded: "loaded (loaded w) = loaded w"
  using loaded_envs_file [of w] by (simp add: loaded_id)

lemma environments_loaded: "environments (loaded w) = environments w"
  by (simp add: environments_def [of "loaded w"] loaded_envs_file)

lemma switches_loaded: "switches (loaded w) = switches w"
  by (cases "history_file w") (simp_all add: loaded_def init_config_def switches_def Let_def)

lemma stored_exists: "env \<in> set (environments w) \<Longrightarrow> loaded w = w"
  by (cases "envs_file w") (simp_all add: environments_def loaded_id)

lemma environments_save: "environments (save_environments data w) = data"
  by (simp add: environments_def save_environments_def)

lemma switches_save: "switches (save_environments data w) = switches w"
  by (simp add: switches_def save_environments_def)

lemma loaded_save: "loaded (save_environments data w) = save_environments data w"
  by (simp add: loaded_def save_environments_def)

lemma get_environment_eq:
  "get_environment h nm w = (Inr (find (same_name h nm) (environments w)), loaded w)"
  by (simp add: get_environment_def load_environments_eq)

subsection \<open>Names compared in lower case\<close>

lemma list_ex_find: "list_ex P xs \<longleftrightarrow> find P xs \<noteq> None"
  by (induction xs) simp_all

lemma same_name_cong:
  "str_lower h nm' = str_lower h nm \<Longrightarrow> same_name h nm' = same_name h nm"
  by (simp add: same_name_def fun_eq_iff)

lemma find_append_new: "\<not> list_ex P xs \<Longrightarrow> P x \<Longrightarrow> find P (xs @ [x]) = Some x"
  by (induction xs) simp_all

lemma find_unique:
  "distinct (map (\<lambda>e. str_lower h (name e)) es) \<Longrightarrow> env \<in> set es \<Longrightarrow>
   find (same_name h (name env)) es = Some env"
proof (induction es)
  case Nil
  then show ?case by simp
next
  case (Cons e es)
  show ?case
  proof (cases "e = env")
    case True
    then show ?thesis by (simp add: same_name_def)
  next
    case False
    with Cons.prems have in_es: "env \<in> set es" by simp
    then have "str_lower h (name env) \<in> (\<lambda>e. str_lower h (name e)) ` set es" by blast
    with Cons.prems have "str_lower h (name e) \<noteq> str_lower h (name env)" by auto
    with Cons in_es show ?thesis by (simp add: same_name_def)
  qed
qed

subsection \<open>Adding and getting an environment\<close>

text \<open>
  Claim C1. When no stored environment has the name \<open>nm\<close> in lower case (the name is
  valid for adding), \<open>add_environment\<close> returns \<open>True\<close>, and \<open>get_environment\<close> on the
  files it leaves, with any spelling \<open>nm'\<close> that \<open>str.lower\<close> sends where it sends \<open>nm\<close>,
  returns the environment just built: \<open>use_count\<close> is 0, \<open>last_used\<close> is \<open>None\<close>,
  \<open>project_path\<close> is the path as \<open>Path.resolve\<close> returns it, \<open>created\<close> is the reading
  of the clock, and the other fields are the arguments (\<open>None\<close> for the variables or
  the commands stored as the empty value). The lookup leaves the files as they are.
\<close>

theorem add_then_get:
  assumes "\<not> list_ex (same_name h nm) (environments w)"
    and "str_lower h nm' = str_lower h nm"
  shows "\<exists>w1. add_environment h nm path pe nv ev sc desc now w = (Inr True, w1) \<and>
              get_environment h nm' w1 =
                (Inr (Some \<lparr>name = nm,
                            project_path = path_resolve h path,
                            python_env = pe,
                            node_version = nv,
                            env_vars = (case ev of None \<Rightarrow> [] | Some d \<Rightarrow> d),
                            shell_commands = (case sc of None \<Rightarrow> [] | Some c \<Rightarrow> c),
                            description = desc,
                            created = now,
                            last_used = None,
                            use_count = 0\<rparr>), w1)"
proof -
  let ?env = "\<lparr>name = nm, project_path = path_resolve h path, python_env = pe,
               node_version = nv, env_vars = (case ev of None \<Rightarrow> [] | Some d \<Rightarrow> d),
               shell_commands = (case sc of None \<Rightarrow> [] | Some c \<Rightarrow> c),
               description = desc, created = now, last_used = None, use_count = 0\<rparr>"
  let ?w1 = "save_environments (environments w @ [?env]) (loaded w)"
  have add: "add_environment h nm path pe nv ev sc desc now w = (Inr True, ?w1)"
    using assms(1) by (simp add: add_environment_def load_environments_eq)
  have "same_name h nm ?env"
    by (simp add: same_name_def)
  moreover have "same_name h nm' = same_name h nm"
    using assms(2) by (rule same_name_cong)
  ultimately have "find (same_name h nm') (environments w @ [?env]) = Some ?env"
    using assms(1) by (simp add: find_append_new)
  then have "get_environment h nm' ?w1 = (Inr (Some ?env), ?w1)"
    by (simp add: get_environment_eq environments_save loaded_save)
  with add show ?thesis by blast
qed

theorem add_then_get_witness:
  "\<not> list_ex (same_name posix_host ([CHR 0xC3, CHR 0x89] @ ''mile''))
       (environments demo_files) \<and>
   str_lower posix_host ([CHR 0xC3, CHR 0xA9] @ ''MILE'')
     = str_lower posix_host ([CHR 0xC3, CHR 0x89] @ ''mile'') \<and>
   (\<exists>w1. add_environment posix_host ([CHR 0xC3, CHR 0x89] @ ''mile'') ''/srv/api'' None
             (Some ''20'') None (Some [''make run'']) ''the service''
             ''2026-01-06T12:00:00.000000'' demo_files
             = (Inr True, w1) \<and>
          get_environment posix_host ([CHR 0xC3, CHR 0xA9] @ ''MILE'') w1 =
            (Inr (Some \<lparr>name = [CHR 0xC3, CHR 0x89] @ ''mile'', project_path = ''/srv/api'',
                        python_env = None, node_version = Some ''20'', env_vars = [],
                        shell_commands = [''make run''], description = ''the service'',
                        created = ''2026-01-06T12:00:00.000000'', last_used = None,
                        use_count = 0\<rparr>), w1))"
proof -
  have a: "\<not> list_ex (same_name posix_host ([CHR 0xC3, CHR 0x89] @ ''mile''))
      (environments demo_files)"
    by (simp add: environments_def example_defs lower_defs)
  have b: "str_lower posix_host ([CHR 0xC3, CHR 0xA9] @ ''MILE'')
      = str_lower posix_host ([CHR 0xC3, CHR 0x89] @ ''mile'')"
    by (simp add: posix_host_def lower_defs)
  from add_then_get [OF a b, of "''/srv/api''" None "Some ''20''" None
      "Some [''make run'']" "''the service''" "''2026-01-06T12:00:00.000000''"]
  have "\<exists>w1. add_environment posix_host ([CHR 0xC3, CHR 0x89] @ ''mile'') ''/srv/api'' None
             (Some ''20'') None (Some [''make run'']) ''the service''
             ''2026-01-06T12:00:00.000000'' demo_files
             = (Inr True, w1) \<and>
          get_environment posix_host ([CHR 0xC3, CHR 0xA9] @ ''MILE'') w1 =
            (Inr (Some \<lparr>name = [CHR 0xC3, CHR 0x89] @ ''mile'', project_path = ''/srv/api'',
                        python_env = None, node_version = Some ''20'', env_vars = [],
                        shell_commands = [''make run''], description = ''the service'',
                        created = ''2026-01-06T12:00:00.000000'', last_used = None,
                        use_count = 0\<rparr>), w1)"
    by (simp add: posix_host_def)
  with a b show ?thesis by blast
qed

text \<open>
  Claim C2. When a stored environment has the name of the request in lower case, as
  \<open>str.lower\<close> compares them, \<open>add_environment\<close> returns \<open>False\<close> and leaves the files
  exactly as they were: the environments, every field of the one already there
  included, and the history.
\<close>

theorem add_duplicate_rejected:
  assumes "env \<in> set (environments w)"
    and "str_lower h (name env) = str_lower h nm"
  shows "add_environment h nm path pe nv ev sc desc now w = (Inr False, w)"
proof -
  have "list_ex (same_name h nm) (environments w)"
    using assms by (auto simp: list_ex_iff same_name_def)
  moreover have "loaded w = w"
    using assms(1) by (rule stored_exists)
  ultimately show ?thesis
    by (simp add: add_environment_def load_environments_eq)
qed

theorem add_duplicate_rejected_witness:
  "web_env \<in> set (environments demo_files) \<and>
   str_lower posix_host (name web_env) = str_lower posix_host (''CAF'' @ [CHR 0xC3, CHR 0xA9]) \<and>
   add_environment posix_host (''CAF'' @ [CHR 0xC3, CHR 0xA9]) ''/elsewhere'' None None None
       None ''again'' ''2026-01-06T12:00:00.000000'' demo_files = (Inr False, demo_files)"
proof -
  have a: "web_env \<in> set (environments demo_files)"
    by (simp add: environments_def demo_files_def)
  have b: "str_lower posix_host (name web_env)
      = str_lower posix_host (''CAF'' @ [CHR 0xC3, CHR 0xA9])"
    by (simp add: web_env_def posix_host_def lower_defs)
  from a b add_duplicate_rejected [OF a b] show ?thesis by blast
qed

text \<open>
  Claim C10. In files whose names are unique in lower case (the state that
  \<open>add_environment\<close> keeps), \<open>get_environment\<close> with any spelling that \<open>str.lower\<close> sends
  where it sends the name of a stored environment returns that environment as it is
  stored, its \<open>name\<close> in the spelling it was created with, and leaves the files as they
  are.
\<close>

theorem get_returns_stored:
  assumes "unique_names h w" and "env \<in> set (environments w)"
    and "str_lower h nm = str_lower h (name env)"
  shows "get_environment h nm w = (Inr (Some env), w)"
proof -
  have "find (same_name h (name env)) (environments w) = Some env"
    using assms(1,2) unfolding unique_names_def by (rule find_unique)
  then have "find (same_name h nm) (environments w) = Some env"
    using same_name_cong [OF assms(3)] by simp
  moreover have "loaded w = w"
    using assms(2) by (rule stored_exists)
  ultimately show ?thesis
    by (simp add: get_environment_eq)
qed

theorem get_returns_stored_witness:
  "unique_names posix_host demo_files \<and> web_env \<in> set (environments demo_files) \<and>
   str_lower posix_host (''cAF'' @ [CHR 0xC3, CHR 0xA9]) = str_lower posix_host (name web_env) \<and>
   get_environment posix_host (''cAF'' @ [CHR 0xC3, CHR 0xA9]) demo_files
     = (Inr (Some web_env), demo_files) \<and>
   name web_env = ''Caf'' @ [CHR 0xC3, CHR 0x89]"
proof -
  have a: "unique_names posix_host demo_files"
    by (simp add: unique_names_def environments_def example_defs lower_defs)
  have b: "web_env \<in> set (environments demo_files)"
    by (simp add: environments_def demo_files_def)
  have c: "str_lower posix_host (''cAF'' @ [CHR 0xC3, CHR 0xA9])
      = str_lower posix_host (name web_env)"
    by (simp add: web_env_def posix_host_def lower_defs)
  have d: "name web_env = ''Caf'' @ [CHR 0xC3, CHR 0x89]"
    by (simp add: web_env_def)
  from a b c d get_returns_stored [OF a b c] show ?thesis by blast
qed

subsection \<open>Deleting an environment\<close>

lemma first_index_none:
  "\<not> list_ex (same_name h nm) es \<Longrightarrow> first_index h nm es = None"
  by (induction es) simp_all

lemma first_index_append:
  "\<not> list_ex (same_name h nm) xs \<Longrightarrow> same_name h nm env \<Longrightarrow>
   first_index h nm (xs @ env # ys) = Some (length xs)"
  by (induction xs) simp_all

lemma del_at_append: "del_at (length xs) (xs @ env # ys) = xs @ ys"
  by (simp add: del_at_def)

text \<open>
  Claim C8. When the stored list is \<open>xs @ env # ys\<close>, \<open>env\<close> has the name in lower case,
  as \<open>str.lower\<close> compares them, and nothing in \<open>xs\<close> has (so \<open>env\<close> is the first match,
  the only one when names are unique), \<open>delete_environment\<close> returns \<open>True\<close> and the
  stored list becomes \<open>xs @ ys\<close>: that one entry is gone, every other entry is there
  with all its fields, in the same order; the history is untouched. When no stored
  environment has the name, \<open>delete_environment\<close> returns \<open>False\<close>, the environments and
  the history are as before, and files that existed are left exactly as they were.
\<close>

theorem delete_removes_one:
  "(environments w = xs @ env # ys \<and> str_lower h (name env) = str_lower h nm \<and>
      \<not> list_ex (same_name h nm) xs \<longrightarrow>
      (\<exists>w'. delete_environment h nm w = (Inr True, w') \<and> environments w' = xs @ ys \<and>
            switches w' = switches w)) \<and>
   (\<not> list_ex (same_name h nm) (environments w) \<longrightarrow>
      (\<exists>w'. delete_environment h nm w = (Inr False, w') \<and>
            environments w' = environments w \<and> switches w' = switches w \<and>
            (envs_file w \<noteq> None \<longrightarrow> w' = w)))"
proof (intro conjI impI)
  assume a: "environments w = xs @ env # ys \<and> str_lower h (name env) = str_lower h nm \<and>
      \<not> list_ex (same_name h nm) xs"
  then have "first_index h nm (environments w) = Some (length xs)"
    by (simp add: first_index_append same_name_def)
  then have "delete_environment h nm w =
      (Inr True, save_environments (del_at (length xs) (environments w)) (loaded w))"
    by (simp add: delete_environment_def load_environments_eq)
  with a show "\<exists>w'. delete_environment h nm w = (Inr True, w') \<and>
      environments w' = xs @ ys \<and> switches w' = switches w"
    by (simp add: environments_save switches_save switches_loaded del_at_append)
next
  assume "\<not> list_ex (same_name h nm) (environments w)"
  then have "delete_environment h nm w = (Inr False, loaded w)"
    by (simp add: delete_environment_def load_environments_eq first_index_none)
  then show "\<exists>w'. delete_environment h nm w = (Inr False, w') \<and>
      environments w' = environments w \<and> switches w' = switches w \<and>
      (envs_file w \<noteq> None \<longrightarrow> w' = w)"
    by (auto simp: environments_loaded switches_loaded loaded_id)
qed

theorem delete_removes_one_witness:
  "environments demo_files = [] @ web_env # [demo_env] \<and>
   str_lower posix_host (name web_env) = str_lower posix_host (''CAF'' @ [CHR 0xC3, CHR 0xA9]) \<and>
   \<not> list_ex (same_name posix_host (''CAF'' @ [CHR 0xC3, CHR 0xA9])) [] \<and>
   (\<exists>w'. delete_environment posix_host (''CAF'' @ [CHR 0xC3, CHR 0xA9]) demo_files
           = (Inr True, w') \<and>
         environments w' = [demo_env] \<and> switches w' = switches demo_files) \<and>
   \<not> list_ex (same_name posix_host ''cafe'') (environments demo_files) \<and>
   delete_environment posix_host ''cafe'' demo_files = (Inr False, demo_files)"
proof -
  have a: "environments demo_files = [] @ web_env # [demo_env]"
    by (simp add: environments_def demo_files_def)
  have b: "str_lower posix_host (name web_env)
      = str_lower posix_host (''CAF'' @ [CHR 0xC3, CHR 0xA9])"
    by (simp add: web_env_def posix_host_def lower_defs)
  have c: "\<not> list_ex (same_name posix_host (''CAF'' @ [CHR 0xC3, CHR 0xA9])) []"
    by simp
  have d: "\<not> list_ex (same_name posix_host ''cafe'') (environments demo_files)"
    by (simp add: environments_def example_defs lower_defs)
  have e: "envs_file demo_files \<noteq> None"
    by (simp add: demo_files_def)
  from a b c
    delete_removes_one [of demo_files "[]" web_env "[demo_env]" posix_host
      "''CAF'' @ [CHR 0xC3, CHR 0xA9]"]
  have first: "\<exists>w'. delete_environment posix_host (''CAF'' @ [CHR 0xC3, CHR 0xA9]) demo_files
           = (Inr True, w') \<and>
         environments w' = [demo_env] \<and> switches w' = switches demo_files"
    by simp
  from d e delete_removes_one [of demo_files "[]" web_env "[demo_env]" posix_host "''cafe''"]
  have "delete_environment posix_host ''cafe'' demo_files = (Inr False, demo_files)"
    by auto
  with a b c d first show ?thesis by blast
qed

subsection \<open>One switch\<close>

lemma find_update_usage:
  "str_lower h nm' = str_lower h nm \<Longrightarrow>
   find (same_name h nm') (update_usage h nm now es) =
   map_option (\<lambda>e. e\<lparr>last_used := Some now, use_count := use_count e + 1\<rparr>)
     (find (same_name h nm) es)"
  by (induction es) (simp_all add: same_name_def)

lemma slice_from_100: "slice_from (- 100) xs = last100 xs"
  by (simp add: slice_from_def last100_def nat_diff_distrib')

lemma log_switch_eq:
  "\<exists>w'. log_switch nm now w = (Inr (), w') \<and>
        switches w' = last100 (switches w @ [\<lparr>environment = nm, timestamp = now\<rparr>]) \<and>
        environments w' = environments w \<and>
        (envs_file w \<noteq> None \<longrightarrow> envs_file w' = envs_file w)"
  by (cases "history_file w"; cases "envs_file w")
     (simp_all add: log_switch_def init_config_def switches_def environments_def Let_def
        slice_from_100)

lemma switch_environment_found:
  assumes "find (same_name h nm) (environments w) = Some env"
  shows "\<exists>w'. switch_environment h nm now_used now_logged w =
                 (map_sum (\<lambda>e. e) Some (commands h env), w') \<and>
               environments w' = update_usage h nm now_used (environments w) \<and>
               switches w' =
                 last100 (switches w @ [\<lparr>environment = nm, timestamp = now_logged\<rparr>]) \<and>
               envs_file w' \<noteq> None"
proof -
  let ?w3 = "save_environments (update_usage h nm now_used (environments w)) (loaded w)"
  obtain w' where w': "log_switch nm now_logged ?w3 = (Inr (), w')"
      "switches w' = last100 (switches ?w3 @ [\<lparr>environment = nm, timestamp = now_logged\<rparr>])"
      "environments w' = environments ?w3"
      "envs_file ?w3 \<noteq> None \<longrightarrow> envs_file w' = envs_file ?w3"
    using log_switch_eq [of nm now_logged ?w3] by blast
  have "switch_environment h nm now_used now_logged w =
      (map_sum (\<lambda>e. e) Some (commands h env), w')"
    using assms w'(1)
    by (cases "commands h env")
       (simp_all add: switch_environment_def get_environment_eq load_environments_eq
          environments_loaded loaded_loaded)
  moreover have "envs_file w' \<noteq> None"
    using w'(4) by (simp add: save_environments_def)
  ultimately show ?thesis
    using w'(2,3) by (simp add: environments_save switches_save switches_loaded)
qed

lemma switch_environment_missing:
  assumes "find (same_name h nm) (environments w) = None"
  shows "switch_environment h nm now_used now_logged w = (Inr None, loaded w)"
  using assms by (simp add: switch_environment_def get_environment_eq)

lemma last_last100: "last (last100 (xs @ [x])) = x"
  by (simp add: last100_def)

lemmas switch_defs =
  switch_environment_def get_environment_def load_environments_def log_switch_def
  save_environments_def slice_from_def init_config_def environments_def switches_def
  commands_def activate_commands_def activate_script_def env_var_commands_def
  custom_commands_def

text \<open>
  Claim C6, as the code has it. When \<open>get_environment\<close> finds \<open>env\<close> under the name
  \<open>nm\<close>, one call of \<open>switch_environment\<close> returns the commands of \<open>env\<close> (or raises the
  error that building them raises); in both cases the stored environment is afterwards
  \<open>env\<close> with \<open>last_used\<close> set to the reading \<open>now_used\<close> and one more use; and the
  history is the last 100 entries of the old history followed by one new entry, which
  is its last entry: its \<open>environment\<close> is the name as the caller spelled it and its
  \<open>timestamp\<close> is \<open>now_logged\<close>, the reading that \<open>log_switch\<close> takes itself after the
  environments were saved.
\<close>

theorem switch_records_use:
  assumes "find (same_name h nm) (environments w) = Some env"
  shows "\<exists>w'. switch_environment h nm now_used now_logged w =
                 (map_sum (\<lambda>e. e) Some (commands h env), w') \<and>
               get_environment h nm w' =
                 (Inr (Some (env\<lparr>last_used := Some now_used,
                                  use_count := use_count env + 1\<rparr>)), w') \<and>
               switches w' =
                 last100 (switches w @ [\<lparr>environment = nm, timestamp = now_logged\<rparr>]) \<and>
               last (switches w') = \<lparr>environment = nm, timestamp = now_logged\<rparr>"
proof -
  obtain w' where w': "switch_environment h nm now_used now_logged w =
        (map_sum (\<lambda>e. e) Some (commands h env), w')"
      "environments w' = update_usage h nm now_used (environments w)"
      "switches w' = last100 (switches w @ [\<lparr>environment = nm, timestamp = now_logged\<rparr>])"
      "envs_file w' \<noteq> None"
    using switch_environment_found [OF assms] by blast
  have "find (same_name h nm) (environments w') =
      Some (env\<lparr>last_used := Some now_used, use_count := use_count env + 1\<rparr>)"
    using assms by (simp add: w'(2) find_update_usage)
  moreover have "loaded w' = w'"
    using w'(4) by (auto simp: loaded_id)
  ultimately have "get_environment h nm w' =
      (Inr (Some (env\<lparr>last_used := Some now_used, use_count := use_count env + 1\<rparr>)), w')"
    by (simp add: get_environment_eq)
  with w'(1,3) show ?thesis
    by (auto simp: last_last100)
qed

theorem switch_records_use_witness:
  "find (same_name posix_host ''DEMO'') (environments demo_files) = Some demo_env \<and>
   (\<exists>w'. switch_environment posix_host ''DEMO'' ''2026-01-06T12:00:00.000104''
             ''2026-01-06T12:00:00.000871'' demo_files =
             (map_sum (\<lambda>e. e) Some (commands posix_host demo_env), w') \<and>
          get_environment posix_host ''DEMO'' w' =
            (Inr (Some (demo_env\<lparr>last_used := Some ''2026-01-06T12:00:00.000104'',
                                  use_count := use_count demo_env + 1\<rparr>)), w') \<and>
          last (switches w') =
            \<lparr>environment = ''DEMO'', timestamp = ''2026-01-06T12:00:00.000871''\<rparr>)"
proof -
  have a: "find (same_name posix_host ''DEMO'') (environments demo_files) = Some demo_env"
    by (simp add: environments_def example_defs lower_defs)
  from switch_records_use [OF a, of "''2026-01-06T12:00:00.000104''"
      "''2026-01-06T12:00:00.000871''"]
  have "\<exists>w'. switch_environment posix_host ''DEMO'' ''2026-01-06T12:00:00.000104''
             ''2026-01-06T12:00:00.000871'' demo_files =
             (map_sum (\<lambda>e. e) Some (commands posix_host demo_env), w') \<and>
          get_environment posix_host ''DEMO'' w' =
            (Inr (Some (demo_env\<lparr>last_used := Some ''2026-01-06T12:00:00.000104'',
                                  use_count := use_count demo_env + 1\<rparr>)), w') \<and>
          last (switches w') =
            \<lparr>environment = ''DEMO'', timestamp = ''2026-01-06T12:00:00.000871''\<rparr>"
    by blast
  with a show ?thesis by blast
qed

text \<open>
  Claim C6 as stated fails: the entry of the history does not carry the value of
  \<open>last_used\<close>. Switching to \<open>DEMO\<close> when the clock reads \<open>...000104\<close> at the update
  of the statistics and \<open>...000871\<close> in \<open>log_switch\<close> leaves \<open>last_used\<close> with the first
  reading and the entry with the second (under the spelling \<open>DEMO\<close>, while the stored
  name is \<open>demo\<close>).
\<close>

theorem switch_logs_later_reading:
  "switch_environment posix_host ''DEMO'' ''2026-01-06T12:00:00.000104''
       ''2026-01-06T12:00:00.000871'' demo_files =
     (map_sum (\<lambda>e. e) Some (commands posix_host demo_env), demo_switched) \<and>
   get_environment posix_host ''DEMO'' demo_switched =
     (Inr (Some (demo_env\<lparr>last_used := Some ''2026-01-06T12:00:00.000104'',
                           use_count := 1\<rparr>)), demo_switched) \<and>
   switches demo_switched =
     [\<lparr>environment = ''DEMO'', timestamp = ''2026-01-06T12:00:00.000871''\<rparr>] \<and>
   last_used (demo_env\<lparr>last_used := Some ''2026-01-06T12:00:00.000104'', use_count := 1\<rparr>)
     \<noteq> Some (timestamp (last (switches demo_switched)))"
  by (simp add: switch_defs example_defs lower_defs)

subsection \<open>The commands of a switch\<close>

lemma commands_demo:
  assumes "\<not> win32 h" and "project_path env = ''/tmp/demo''" and "python_env env = None"
    and "env_vars env = [(''DEBUG'', ''true'')]" and "shell_commands env = [''echo hi'']"
  shows "commands h env =
           Inr [''cd /tmp/demo'', ''# Set environment variables'',
                ''export DEBUG='' @ [CHR 0x22] @ ''true'' @ [CHR 0x22],
                ''# Custom commands'', ''echo hi'']"
  using assms
  by (simp add: commands_def activate_commands_def env_var_commands_def custom_commands_def)

text \<open>
  Claim C5, with the number of lines the code produces. For an environment named
  \<open>demo\<close> with project path \<open>/tmp/demo\<close>, the variable \<open>DEBUG\<close> set to \<open>true\<close>, the
  command \<open>echo hi\<close> and no interpreter environment, a switch on a host that is not
  Windows returns five lines, in this order: \<open>cd /tmp/demo\<close>, the comment of the
  variables, \<open>export DEBUG="true"\<close>, the comment of the commands, \<open>echo hi\<close>; there is
  no activation line.
\<close>

theorem demo_switch_lines:
  assumes "\<not> win32 h" and "find (same_name h nm) (environments w) = Some env"
    and "name env = ''demo''" and "project_path env = ''/tmp/demo''"
    and "python_env env = None" and "env_vars env = [(''DEBUG'', ''true'')]"
    and "shell_commands env = [''echo hi'']"
  shows "\<exists>w'. switch_environment h nm now_used now_logged w =
           (Inr (Some [''cd /tmp/demo'', ''# Set environment variables'',
                       ''export DEBUG='' @ [CHR 0x22] @ ''true'' @ [CHR 0x22],
                       ''# Custom commands'', ''echo hi'']), w')"
proof -
  have "commands h env =
           Inr [''cd /tmp/demo'', ''# Set environment variables'',
                ''export DEBUG='' @ [CHR 0x22] @ ''true'' @ [CHR 0x22],
                ''# Custom commands'', ''echo hi'']"
    using assms(1,4-7) by (rule commands_demo)
  with switch_environment_found [OF assms(2), of now_used now_logged]
  show ?thesis by auto
qed

theorem demo_switch_lines_witness:
  "\<not> win32 posix_host \<and>
   find (same_name posix_host ''demo'') (environments demo_files) = Some demo_env \<and>
   name demo_env = ''demo'' \<and> project_path demo_env = ''/tmp/demo'' \<and>
   python_env demo_env = None \<and> env_vars demo_env = [(''DEBUG'', ''true'')] \<and>
   shell_commands demo_env = [''echo hi''] \<and>
   (\<exists>w'. switch_environment posix_host ''demo'' ''2026-01-06T12:00:00.000104''
            ''2026-01-06T12:00:00.000871'' demo_files =
           (Inr (Some [''cd /tmp/demo'', ''# Set environment variables'',
                       ''export DEBUG='' @ [CHR 0x22] @ ''true'' @ [CHR 0x22],
                       ''# Custom commands'', ''echo hi'']), w'))"
proof -
  have a: "\<not> win32 posix_host"
    by (simp add: posix_host_def)
  have b: "find (same_name posix_host ''demo'') (environments demo_files) = Some demo_env"
    by (simp add: environments_def example_defs lower_defs)
  have c: "name demo_env = ''demo''" "project_path demo_env = ''/tmp/demo''"
    "python_env demo_env = None" "env_vars demo_env = [(''DEBUG'', ''true'')]"
    "shell_commands demo_env = [''echo hi'']"
    by (simp_all add: demo_env_def)
  from a b c demo_switch_lines [OF a b c, of "''2026-01-06T12:00:00.000104''"
      "''2026-01-06T12:00:00.000871''"]
  show ?thesis by blast
qed

text \<open>
  Claim C5 as stated fails on the count: the lines of the scenario are the five listed,
  not four.
\<close>

theorem demo_switch_five_lines:
  "commands posix_host demo_env =
     Inr [''cd /tmp/demo'', ''# Set environment variables'',
          ''export DEBUG='' @ [CHR 0x22] @ ''true'' @ [CHR 0x22],
          ''# Custom commands'', ''echo hi''] \<and>
   map_sum (\<lambda>e. e) length (commands posix_host demo_env) \<noteq> Inr 4"
  by (simp add: commands_def activate_commands_def env_var_commands_def custom_commands_def
      example_defs)





subsection \<open>Reading the history\<close>

lemma get_history_positive:
  "0 < limit \<Longrightarrow>
   get_history limit w = drop (length (switches w) - nat limit) (switches w)"
  by (cases "history_file w")
     (simp_all add: get_history_def switches_def slice_from_def nat_diff_distrib')

text \<open>
  Claim C7 at the limits the slice misses. \<open>get_history\<close> takes \<open>switches[-limit:]\<close>.
  With three switches logged, the limit 0 returns all three (the slice \<open>[-0:]\<close> starts
  at the beginning) where the most recent 0 entries are none; the limit \<open>-1\<close> returns
  the last two; the limit 1 returns the last entry, as every positive limit returns
  the tail of that length (\<open>get_history_positive\<close>).
\<close>

theorem get_history_zero_returns_all:
  "get_history 0 three_switches =
     [\<lparr>environment = ''demo'', timestamp = ''2026-01-06T12:00:00.000871''\<rparr>,
      \<lparr>environment = ''web-app'', timestamp = ''2026-01-06T12:05:00.000313''\<rparr>,
      \<lparr>environment = ''Demo'', timestamp = ''2026-01-06T12:09:30.000507''\<rparr>] \<and>
   get_history (- 1) three_switches =
     [\<lparr>environment = ''web-app'', timestamp = ''2026-01-06T12:05:00.000313''\<rparr>,
      \<lparr>environment = ''Demo'', timestamp = ''2026-01-06T12:09:30.000507''\<rparr>] \<and>
   get_history 1 three_switches =
     [\<lparr>environment = ''Demo'', timestamp = ''2026-01-06T12:09:30.000507''\<rparr>]"
  by (simp add: get_history_def slice_from_def three_switches_def)

subsection \<open>Repeated switches\<close>



lemma commands_total:
  assumes "\<forall>p e. path_exists h p \<noteq> Inl e"
  shows "\<exists>cs. commands h env = Inr cs"
proof -
  have answers: "\<exists>b. path_exists h p = Inr b" for p
    using assms by (cases "path_exists h p") auto
  have script: "\<exists>s. activate_script h pe = Inr s" for pe
  proof -
    obtain b where
      "path_exists h (path_join h (path_join h pe ''Scripts'') ''activate.bat'') = Inr b"
      using answers by blast
    then show ?thesis
      by (cases b) (simp_all add: activate_script_def)
  qed
  have "\<exists>a. activate_commands h env = Inr a"
  proof (cases "python_env env")
    case None
    then show ?thesis by (simp add: activate_commands_def)
  next
    case (Some pe)
    obtain s where s: "activate_script h pe = Inr s"
      using script by blast
    obtain b c where "path_exists h pe = Inr b" "path_exists h s = Inr c"
      using answers by blast
    with Some s show ?thesis
      by (cases b; cases c) (simp_all add: activate_commands_def)
  qed
  then show ?thesis
    by (auto simp: commands_def)
qed





lemma length_last100: "length (last100 xs) \<le> 100"
  by (simp add: last100_def)

lemma last100_append: "last100 (last100 xs @ ys) = last100 (xs @ ys)"
  by (cases "length xs \<le> 100") (simp_all add: last100_def add.commute)

lemma list_ex_update_usage:
  "list_ex (same_name h n) (update_usage h nm now es) = list_ex (same_name h n) es"
  by (induction es) (simp_all add: same_name_def)

lemma switch_environment_bounded:
  "length (switches w) \<le> 100 \<Longrightarrow>
   length (switches (snd (switch_environment h nm now_used now_logged w))) \<le> 100"
proof (cases "find (same_name h nm) (environments w)")
  case None
  assume "length (switches w) \<le> 100"
  with None show ?thesis
    by (simp add: switch_environment_missing switches_loaded)
next
  case (Some env)
  from switch_environment_found [OF this, of now_used now_logged]
  show ?thesis by (auto simp: length_last100)
qed

lemma switch_all_bounded:
  "length (switches w) \<le> 100 \<Longrightarrow> length (switches (snd (switch_all h calls w))) \<le> 100"
proof (induction calls arbitrary: w)
  case Nil
  then show ?case by simp
next
  case (Cons c calls)
  obtain cn t1 t2 where c: "c = (cn, t1, t2)"
    by (cases c) auto
  let ?w1 = "snd (switch_environment h cn t1 t2 w)"
  from Cons.prems have "length (switches ?w1) \<le> 100"
    by (rule switch_environment_bounded)
  then have "length (switches (snd (switch_all h calls ?w1))) \<le> 100"
    by (rule Cons.IH)
  then show ?case
    by (auto simp: c split: prod.splits)
qed

lemma switch_all_found:
  assumes "\<forall>c\<in>set calls. list_ex (same_name h (fst c)) (environments w)"
  shows "\<exists>rs w'. switch_all h calls w = (rs, w') \<and>
           (\<forall>r\<in>set rs. \<exists>env. r = map_sum (\<lambda>e. e) Some (commands h env)) \<and>
           switches w' =
             (if calls = [] then switches w else last100 (switches w @ map logged calls))"
  using assms
proof (induction calls arbitrary: w)
  case Nil
  show ?case by simp
next
  case (Cons c calls)
  obtain cn t1 t2 where c: "c = (cn, t1, t2)"
    by (cases c) auto
  from Cons.prems have "list_ex (same_name h cn) (environments w)"
    by (simp add: c)
  then obtain env where "find (same_name h cn) (environments w) = Some env"
    by (auto simp: list_ex_find)
  from switch_environment_found [OF this, of t1 t2]
  obtain w1 where w1: "switch_environment h cn t1 t2 w =
        (map_sum (\<lambda>e. e) Some (commands h env), w1)"
      "environments w1 = update_usage h cn t1 (environments w)"
      "switches w1 = last100 (switches w @ [logged c])"
    by (auto simp: logged_def c)
  from Cons.prems have "\<forall>c\<in>set calls. list_ex (same_name h (fst c)) (environments w1)"
    by (simp add: w1(2) list_ex_update_usage)
  from Cons.IH [OF this]
  obtain rs w' where rest: "switch_all h calls w1 = (rs, w')"
      "\<forall>r\<in>set rs. \<exists>env. r = map_sum (\<lambda>e. e) Some (commands h env)"
      "switches w' =
         (if calls = [] then switches w1 else last100 (switches w1 @ map logged calls))"
    by blast
  have run: "switch_all h (c # calls) w =
      (map_sum (\<lambda>e. e) Some (commands h env) # rs, w')"
    using w1(1) rest(1) by (simp add: c)
  have "switches w' = last100 (switches w @ map logged (c # calls))"
    using rest(3) by (simp add: w1(3) last100_append)
  with run rest(2) show ?case by auto
qed

lemma last100_of_150:
  "length ys = 150 \<Longrightarrow> last100 (xs @ ys) = drop 50 ys"
  by (simp add: last100_def)

lemma planned_result:
  assumes "r = map_sum (\<lambda>e. e) Some (commands h env)"
  shows "r \<noteq> Inr None \<and> ((\<forall>p e. path_exists h p \<noteq> Inl e) \<longrightarrow> (\<exists>cs. r = Inr (Some cs)))"
proof (cases "commands h env")
  case (Inl e)
  with assms commands_total [of h env] show ?thesis by auto
next
  case (Inr cs)
  with assms show ?thesis by simp
qed

text \<open>
  Claim C4. In any sequence of switches, found or not, a history of at most 100
  entries (the empty one that \<open>init_config\<close> writes, or one that \<open>log_switch\<close> wrote)
  still has at most 100 entries afterwards. When all of 150 calls find their
  environment, none reports an environment as not found (each has the outcome of
  building the commands, which are returned on a host where \<open>Path.exists\<close> never
  raises), and the history is exactly the entries of the calls 51 to 150, oldest
  first, whatever it held before.
\<close>

theorem history_bounded:
  "\<exists>rs w'. switch_all h calls w = (rs, w') \<and>
     (length (switches w) \<le> 100 \<longrightarrow> length (switches w') \<le> 100) \<and>
     ((\<forall>c\<in>set calls. list_ex (same_name h (fst c)) (environments w)) \<and> length calls = 150
        \<longrightarrow> Inr None \<notin> set rs \<and>
            ((\<forall>p e. path_exists h p \<noteq> Inl e) \<longrightarrow> (\<forall>r\<in>set rs. \<exists>cs. r = Inr (Some cs))) \<and>
            switches w' = map logged (drop 50 calls))"
proof -
  obtain rs w' where run: "switch_all h calls w = (rs, w')"
    by (cases "switch_all h calls w")
  have bound: "length (switches w) \<le> 100 \<longrightarrow> length (switches w') \<le> 100"
    using switch_all_bounded [of w h calls] run by simp
  have "Inr None \<notin> set rs \<and>
      ((\<forall>p e. path_exists h p \<noteq> Inl e) \<longrightarrow> (\<forall>r\<in>set rs. \<exists>cs. r = Inr (Some cs))) \<and>
      switches w' = map logged (drop 50 calls)"
    if found: "\<forall>c\<in>set calls. list_ex (same_name h (fst c)) (environments w)"
      and len: "length calls = 150"
  proof -
    from len have "calls \<noteq> []" by auto
    with switch_all_found [OF found] run
    have planned: "\<forall>r\<in>set rs. \<exists>env. r = map_sum (\<lambda>e. e) Some (commands h env)"
      and hist: "switches w' = last100 (switches w @ map logged calls)"
      by auto
    from planned have "Inr None \<notin> set rs"
      using planned_result by blast
    moreover from planned
    have "(\<forall>p e. path_exists h p \<noteq> Inl e) \<longrightarrow> (\<forall>r\<in>set rs. \<exists>cs. r = Inr (Some cs))"
      using planned_result by blast
    ultimately show ?thesis
      using hist len by (simp add: last100_of_150 drop_map)
  qed
  with run bound show ?thesis by blast
qed

theorem history_bounded_witness:
  "length (switches demo_files) \<le> 100 \<and>
   list_ex (same_name posix_host ''demo'') (environments demo_files) \<and>
   list_ex (same_name posix_host (''CAF'' @ [CHR 0xC3, CHR 0x89])) (environments demo_files) \<and>
   length (replicate 50 (''demo'', ''2026-01-06T12:10:00.000104'', ''2026-01-06T12:10:00.000871'')
           @ replicate 100
               (''CAF'' @ [CHR 0xC3, CHR 0x89],
                ''2026-01-06T12:20:00.000230'', ''2026-01-06T12:20:00.000955''))
     = 150 \<and>
   (\<exists>rs w'.
      switch_all posix_host
        (replicate 50 (''demo'', ''2026-01-06T12:10:00.000104'', ''2026-01-06T12:10:00.000871'')
         @ replicate 100
             (''CAF'' @ [CHR 0xC3, CHR 0x89],
              ''2026-01-06T12:20:00.000230'', ''2026-01-06T12:20:00.000955''))
        demo_files = (rs, w') \<and>
      length (switches w') \<le> 100 \<and> Inr None \<notin> set rs \<and>
      switches w' =
        replicate 100
          \<lparr>environment = ''CAF'' @ [CHR 0xC3, CHR 0x89],
           timestamp = ''2026-01-06T12:20:00.000955''\<rparr>)"
proof -
  let ?a = "(''demo'', ''2026-01-06T12:10:00.000104'', ''2026-01-06T12:10:00.000871'')"
  let ?b = "(''CAF'' @ [CHR 0xC3, CHR 0x89],
             ''2026-01-06T12:20:00.000230'', ''2026-01-06T12:20:00.000955'')"
  let ?calls = "replicate 50 ?a @ replicate 100 ?b"
  have a: "length (switches demo_files) \<le> 100"
    by (simp add: switches_def demo_files_def)
  have b: "list_ex (same_name posix_host ''demo'') (environments demo_files)"
    "list_ex (same_name posix_host (''CAF'' @ [CHR 0xC3, CHR 0x89])) (environments demo_files)"
    by (simp_all add: environments_def example_defs lower_defs)
  then have c: "\<forall>c\<in>set ?calls. list_ex (same_name posix_host (fst c)) (environments demo_files)"
    by auto
  have d: "length ?calls = 150"
    by simp
  have e: "map logged (drop 50 ?calls) =
      replicate 100 \<lparr>environment = ''CAF'' @ [CHR 0xC3, CHR 0x89],
                     timestamp = ''2026-01-06T12:20:00.000955''\<rparr>"
    by (simp add: logged_def)
  from history_bounded [of posix_host ?calls demo_files] a c d
  have "\<exists>rs w'. switch_all posix_host ?calls demo_files = (rs, w') \<and>
      length (switches w') \<le> 100 \<and> Inr None \<notin> set rs \<and>
      switches w' = map logged (drop 50 ?calls)"
    by blast
  then have "\<exists>rs w'. switch_all posix_host ?calls demo_files = (rs, w') \<and>
      length (switches w') \<le> 100 \<and> Inr None \<notin> set rs \<and>
      switches w' =
        replicate 100 \<lparr>environment = ''CAF'' @ [CHR 0xC3, CHR 0x89],
                       timestamp = ''2026-01-06T12:20:00.000955''\<rparr>"
    unfolding e .
  with a b d show ?thesis by blast
qed

subsection \<open>The names stay unique\<close>

text \<open>
  The files that \<open>init_config\<close> creates have unique names, and \<open>add_environment\<close>,
  \<open>delete_environment\<close> and \<open>switch_environment\<close> keep them unique, whatever they
  return.
\<close>

lemma unique_names_loaded: "unique_names h (loaded w) = unique_names h w"
  by (simp add: unique_names_def environments_loaded)

lemma unique_names_init: "envs_file w = None \<Longrightarrow> unique_names h (snd (init_config w))"
  by (simp add: unique_names_def environments_def init_config_def Let_def)

lemma list_ex_same_name:
  "list_ex (same_name h nm) es \<longleftrightarrow> str_lower h nm \<in> set (map (\<lambda>e. str_lower h (name e)) es)"
  by (induction es) (auto simp: same_name_def)

lemma unique_names_add:
  assumes "unique_names h w"
    and "add_environment h nm path pe nv ev sc desc now w = (r, w')"
  shows "unique_names h w'"
proof (cases "list_ex (same_name h nm) (environments w)")
  case True
  with assms(2) have "w' = loaded w"
    by (simp add: add_environment_def load_environments_eq)
  with assms(1) show ?thesis
    by (simp add: unique_names_loaded)
next
  case False
  with assms(2) have "\<exists>env. name env = nm \<and>
      w' = save_environments (environments w @ [env]) (loaded w)"
    by (simp add: add_environment_def load_environments_eq) force
  then obtain env where "name env = nm"
      "w' = save_environments (environments w @ [env]) (loaded w)"
    by blast
  with assms(1) False show ?thesis
    by (simp add: unique_names_def environments_save list_ex_same_name)
qed

lemma distinct_del_at: "distinct xs \<Longrightarrow> distinct (del_at i xs)"
  by (simp add: del_at_def set_take_disj_set_drop_if_distinct)

lemma map_del_at: "map f (del_at i xs) = del_at i (map f xs)"
  by (simp add: del_at_def take_map drop_map)

lemma unique_names_delete:
  assumes "unique_names h w" and "delete_environment h nm w = (r, w')"
  shows "unique_names h w'"
proof (cases "first_index h nm (environments w)")
  case None
  with assms(2) have "w' = loaded w"
    by (simp add: delete_environment_def load_environments_eq)
  with assms(1) show ?thesis
    by (simp add: unique_names_loaded)
next
  case (Some i)
  with assms(2) have "w' = save_environments (del_at i (environments w)) (loaded w)"
    by (simp add: delete_environment_def load_environments_eq)
  with assms(1) show ?thesis
    by (simp add: unique_names_def environments_save map_del_at distinct_del_at)
qed

lemma lower_names_update_usage:
  "map (\<lambda>e. str_lower h (name e)) (update_usage h nm now es)
     = map (\<lambda>e. str_lower h (name e)) es"
  by (induction es) simp_all

lemma unique_names_switch:
  assumes "unique_names h w"
    and "switch_environment h nm now_used now_logged w = (r, w')"
  shows "unique_names h w'"
proof (cases "find (same_name h nm) (environments w)")
  case None
  with assms(2) have "w' = loaded w"
    by (simp add: switch_environment_missing)
  with assms(1) show ?thesis
    by (simp add: unique_names_loaded)
next
  case (Some env)
  from switch_environment_found [OF this, of now_used now_logged] assms(2)
  have "environments w' = update_usage h nm now_used (environments w)"
    by auto
  with assms(1) show ?thesis
    by (simp add: unique_names_def lower_names_update_usage)
qed

end
